theory Spec2Isabelle
  imports Main "HOL-Library.Word"
begin

unbundle bit_operations_syntax

section \<open>SerialMultiplexer: a model of serial-mux.cpp\<close>

text \<open>
  The development follows \<^verbatim>\<open>src/serial-mux.cpp\<close>. Bytes are \<open>8 word\<close>
  (\<^verbatim>\<open>uint8_t\<close>), the packet length is a \<open>16 word\<close> (\<^verbatim>\<open>uint16_t\<close>), file
  descriptors and the results of \<^verbatim>\<open>read\<close>/\<^verbatim>\<open>write\<close> are \<open>int\<close>.
  The operating system is the environment: what it will answer to the program's
  calls is part of the state, and every call the program issues is appended to a log.
  The two threads share the state; each is modelled by the function of its loop,
  one turn of a loop at a time.
\<close>

type_synonym u8 = "8 word"
type_synonym u16 = "16 word"

subsection \<open>Constants (lines 66-69)\<close>

definition cMaxNameSize :: int where "cMaxNameSize = 256"
definition cMaxBufSize :: int where "cMaxBufSize = 1024"
definition cMaxDataSize :: int where "cMaxDataSize = 1000"
definition cMaxChannelId :: int where "cMaxChannelId = 255"

definition EXIT_SUCCESS :: int where "EXIT_SUCCESS = 0"
definition EXIT_FAILURE :: int where "EXIT_FAILURE = 1"

subsection \<open>The list of virtual tty channels (lines 93-106)\<close>

record ptyChan =
  channelId :: u8
  pty :: int
  linkPath :: string
  ptyName :: string

text \<open>
  \<^verbatim>\<open>static std::map<uint8_t, ptyChan> sVirtualPorts\<close>. A \<^verbatim>\<open>std::map\<close> keeps its
  entries ordered by key and iterates in that order, whatever the order of the
  insertions, so it is an association list kept strictly sorted by key.
\<close>

type_synonym vports = "(u8 \<times> ptyChan) list"

text \<open>\<^verbatim>\<open>std::map::emplace\<close>: inserts at the key's place; if the key is already
  there the map is left as it is and the new value is dropped.\<close>

fun emplace :: "u8 \<Rightarrow> ptyChan \<Rightarrow> vports \<Rightarrow> vports" where
  "emplace k v [] = [(k, v)]"
| "emplace k v ((k', v') # m) =
     (if k < k' then (k, v) # (k', v') # m
      else if k = k' then (k', v') # m
      else (k', v') # emplace k v m)"

text \<open>A value-initialised \<^verbatim>\<open>ptyChan\<close>, as \<^verbatim>\<open>operator[]\<close> makes it: the class has no
  user-provided constructor, so the scalars are zeroed and the strings are empty.\<close>

definition ptyChan_default :: ptyChan where
  "ptyChan_default = \<lparr>channelId = 0, pty = 0, linkPath = [], ptyName = []\<rparr>"

text \<open>\<^verbatim>\<open>std::map::operator[]\<close>: the entry of the key; when the key is absent a
  value-initialised entry is inserted first.\<close>

definition subscript :: "vports \<Rightarrow> u8 \<Rightarrow> ptyChan \<times> vports" where
  "subscript m k =
     (case map_of m k of
        Some chan \<Rightarrow> (chan, m)
      | None \<Rightarrow> (ptyChan_default, emplace k ptyChan_default m))"

subsection \<open>The packet format (lines 53-57, 421-427, 471-478)\<close>

text \<open>Line 473, \<^verbatim>\<open>c = (nbytes >> 8) & 0xFF\<close>, and line 475, \<^verbatim>\<open>c = nbytes & 0xFF\<close>,
  each stored into a \<^verbatim>\<open>uint8_t\<close>.\<close>

definition nbytes_msb :: "u16 \<Rightarrow> u8" where
  "nbytes_msb nbytes = ucast (drop_bit 8 nbytes AND 0xFF)"

definition nbytes_lsb :: "u16 \<Rightarrow> u8" where
  "nbytes_lsb nbytes = ucast (nbytes AND 0xFF)"

text \<open>Lines 424 and 426: \<^verbatim>\<open>nbytes = (tmp & 0xFF) << 8\<close> with the first length byte,
  then \<^verbatim>\<open>nbytes += (tmp & 0xFF)\<close> with the second.\<close>

definition nbytes_of :: "u8 \<Rightarrow> u8 \<Rightarrow> u16" where
  "nbytes_of hi lo = push_bit 8 (ucast hi AND 0xFF) + (ucast lo AND 0xFF)"

text \<open>The bytes \<^verbatim>\<open>writeThread\<close> sends for one packet (lines 471-478): the channel
  id, the two length bytes, then \<^verbatim>\<open>nbytes\<close> bytes of the buffer, where \<^verbatim>\<open>nbytes\<close> is
  the \<^verbatim>\<open>uint16_t\<close> cast of the number of bytes read from the channel.\<close>

definition encode :: "u8 \<Rightarrow> u8 list \<Rightarrow> u8 list" where
  "encode cid buf =
     (let nbytes = (of_nat (length buf) :: u16)
      in [cid, nbytes_msb nbytes, nbytes_lsb nbytes] @ take (unat nbytes) buf)"

subsection \<open>The state: the program's globals and the operating system\<close>

text \<open>One constructor per message the two threads print, with the values printed.\<close>

datatype message =
    Read_cid u8          \<comment> \<open>line 419, \<^verbatim>\<open>readThread cid=\<close>\<close>
  | Read_nbytes u16      \<comment> \<open>line 427, \<^verbatim>\<open>readThread nbytes=\<close>\<close>
  | Read_bytes int       \<comment> \<open>line 435, \<^verbatim>\<open>readThread read n bytes\<close>\<close>
  | Wrote_bytes int      \<comment> \<open>line 437, \<^verbatim>\<open>readThread wrote n bytes\<close>\<close>
  | Write_failed u16 int \<comment> \<open>line 481, \<^verbatim>\<open>ERROR: Write failed\<close>\<close>

text \<open>
  \<^item> \<open>sVirtualPorts\<close>, \<open>terminateProcess\<close>: the globals of lines 106 and 74. Only the
    signal handler sets \<open>terminateProcess\<close>; the threads read it.
  \<^item> \<open>rd_tmp\<close>: the local \<^verbatim>\<open>tmp\<close> of \<^verbatim>\<open>readThread\<close>. It is declared without a value
    in the loop body; the model keeps whatever the last read left in it.
  \<^item> \<open>phys_in\<close>: what the coming calls \<^verbatim>\<open>read(phys_tty, &x, 1)\<close> return, in order:
    \<open>Some b\<close> is a read of the byte \<open>b\<close> (result 1), \<open>None\<close> a read that finds nothing
    (the port is opened non-blocking with VMIN = VTIME = 0, lines 304 and 334-335;
    result 0). After the list every read finds nothing.
  \<^item> \<open>phys_results\<close>: what the coming calls \<^verbatim>\<open>write(phys_tty, ...)\<close> return, in order;
    after the list every write is complete.
  \<^item> \<open>phys_calls\<close>: the calls \<^verbatim>\<open>write(phys_tty, data, n)\<close> made so far, each with its
    result.
  \<^item> \<open>pty_in\<close>: for each descriptor, the bytes waiting to be read from it.
  \<^item> \<open>pty_eof\<close>: for each descriptor, what a read that finds nothing waiting
    returns: 0 when \<open>pty_eof\<close> holds (end of file, the other side is closed), -1
    otherwise (\<^verbatim>\<open>EAGAIN\<close>, the descriptor is opened \<^verbatim>\<open>O_NONBLOCK\<close>, line 347).
  \<^item> \<open>pty_reads\<close>: the descriptors of the calls \<^verbatim>\<open>read(chan.pty, buf, cMaxDataSize)\<close>
    made so far.
  \<^item> \<open>pty_writes\<close>: the calls \<^verbatim>\<open>write(chan->pty, &tmp, 1)\<close> made so far, descriptor
    and byte.
  \<^item> \<open>cout\<close>, \<open>cerr\<close>: the messages printed so far.
\<close>

record mux =
  sVirtualPorts :: vports
  terminateProcess :: bool
  rd_tmp :: u8
  phys_in :: "u8 option list"
  phys_results :: "int list"
  phys_calls :: "(u8 list \<times> int) list"
  pty_in :: "int \<Rightarrow> u8 list"
  pty_eof :: "int \<Rightarrow> bool"
  pty_reads :: "int list"
  pty_writes :: "(int \<times> u8) list"
  cout :: "message list"
  cerr :: "message list"

definition read_phys :: "mux \<Rightarrow> u8 option \<times> mux" where
  "read_phys s =
     (case phys_in s of
        [] \<Rightarrow> (None, s)
      | r # rs \<Rightarrow> (r, s\<lparr>phys_in := rs\<rparr>))"

definition write_phys :: "u8 list \<Rightarrow> mux \<Rightarrow> int \<times> mux" where
  "write_phys data s =
     (case phys_results s of
        [] \<Rightarrow> (int (length data), s\<lparr>phys_calls := phys_calls s @ [(data, int (length data))]\<rparr>)
      | r # rs \<Rightarrow> (r, s\<lparr>phys_results := rs, phys_calls := phys_calls s @ [(data, r)]\<rparr>))"

text \<open>A non-blocking read of at most \<open>count\<close> bytes from a pseudo-tty: the result and
  the bytes stored at the start of the buffer. The result is negative (an error),
  zero (nothing read) or the number of bytes read.\<close>

definition read_pty :: "int \<Rightarrow> nat \<Rightarrow> mux \<Rightarrow> int \<times> u8 list \<times> mux" where
  "read_pty fd count s =
     (let avail = pty_in s fd;
          s1 = s\<lparr>pty_reads := pty_reads s @ [fd]\<rparr>
      in if avail = [] then (if pty_eof s fd then 0 else - 1, [], s1)
         else (int (length (take count avail)), take count avail,
               s1\<lparr>pty_in := (pty_in s)(fd := drop count avail)\<rparr>))"

definition write_pty :: "int \<Rightarrow> u8 \<Rightarrow> mux \<Rightarrow> mux" where
  "write_pty fd b s = s\<lparr>pty_writes := pty_writes s @ [(fd, b)]\<rparr>"

definition print_out :: "message \<Rightarrow> mux \<Rightarrow> mux" where
  "print_out msg s = s\<lparr>cout := cout s @ [msg]\<rparr>"

definition print_err :: "message \<Rightarrow> mux \<Rightarrow> mux" where
  "print_err msg s = s\<lparr>cerr := cerr s @ [msg]\<rparr>"

subsection \<open>readThread (lines 402-442)\<close>

text \<open>\<^verbatim>\<open>n = read(phys_tty, &tmp, 1)\<close>: \<^verbatim>\<open>tmp\<close> changes only when a byte was read.\<close>

definition read_tmp :: "mux \<Rightarrow> int \<times> mux" where
  "read_tmp s =
     (case read_phys s of
        (None, s') \<Rightarrow> (0, s')
      | (Some b, s') \<Rightarrow> (1, s'\<lparr>rd_tmp := b\<rparr>))"

text \<open>Lines 413-427. \<open>None\<close> when the first read does not return one byte (the loop
  then sleeps and starts over); the results of the two other reads are not looked at.\<close>

definition readThread_header :: "mux \<Rightarrow> (u8 \<times> u16) option \<times> mux" where
  "readThread_header s =
     (case read_phys s of
        (None, s0) \<Rightarrow> (None, s0)
      | (Some cid, s0) \<Rightarrow>
          (let s1 = print_out (Read_cid cid) s0;
               (n, s2) = read_tmp s1;
               hi = rd_tmp s2;
               (n, s3) = read_tmp s2;
               lo = rd_tmp s3;
               nbytes = nbytes_of hi lo
           in (Some (cid, nbytes), print_out (Read_nbytes nbytes) s3)))"

text \<open>Lines 432-439, \<^verbatim>\<open>while (!terminateProcess && nbytes) { ...; nbytes--; }\<close>. The
  counter goes down from its value to 0, so the loop is a recursion on that value.\<close>

fun readThread_payload :: "nat \<Rightarrow> ptyChan \<Rightarrow> mux \<Rightarrow> mux" where
  "readThread_payload 0 chan s = s"
| "readThread_payload (Suc k) chan s =
     (if terminateProcess s then s
      else (let (n, s1) = read_tmp s;
                s2 = print_out (Read_bytes n) s1;
                s3 = write_pty (pty chan) (rd_tmp s2) s2;
                s4 = print_out (Wrote_bytes n) s3
            in readThread_payload k chan s4))"

text \<open>One turn of the outer loop, lines 408-439.\<close>

definition readThread_iter :: "mux \<Rightarrow> mux" where
  "readThread_iter s =
     (case readThread_header s of
        (None, s') \<Rightarrow> s'
      | (Some (cid, nbytes), s') \<Rightarrow>
          (let (chan, m) = subscript (sVirtualPorts s') cid
           in readThread_payload (unat nbytes) chan (s'\<lparr>sVirtualPorts := m\<rparr>)))"

text \<open>The outer loop, \<^verbatim>\<open>while (!terminateProcess)\<close>, for at most \<open>k\<close> turns.\<close>

fun readThread :: "nat \<Rightarrow> mux \<Rightarrow> mux" where
  "readThread 0 s = s"
| "readThread (Suc k) s =
     (if terminateProcess s then s else readThread k (readThread_iter s))"

text \<open>The state when the two threads start (line 267) with the given channels: nothing
  printed, no call made yet, nothing to read anywhere.\<close>

definition started :: "vports \<Rightarrow> mux" where
  "started m =
     \<lparr>sVirtualPorts = m, terminateProcess = False, rd_tmp = 0,
      phys_in = [], phys_results = [], phys_calls = [],
      pty_in = (\<lambda>fd. []), pty_eof = (\<lambda>fd. False), pty_reads = [], pty_writes = [],
      cout = [], cerr = []\<rparr>"

text \<open>What \<^verbatim>\<open>readThread\<close> makes of the bytes of one packet: the channel id it looks
  up and the bytes it passes on, when nothing else is on the line.\<close>

definition on_wire :: "u8 list \<Rightarrow> mux" where
  "on_wire bytes = (started [])\<lparr>phys_in := map Some bytes\<rparr>"

definition decode :: "u8 list \<Rightarrow> (u8 \<times> u8 list) option" where
  "decode bytes =
     (case readThread_header (on_wire bytes) of
        (None, s) \<Rightarrow> None
      | (Some (cid, nbytes), s) \<Rightarrow>
          Some (cid, map snd (pty_writes (readThread_payload (unat nbytes) ptyChan_default s))))"

subsection \<open>writeThread (lines 447-493)\<close>

text \<open>Lines 469-483: the packet is sent with four calls of \<^verbatim>\<open>write\<close>; only the result
  of the last one is compared with \<^verbatim>\<open>nbytes\<close>.\<close>

definition writeThread_send :: "u8 \<Rightarrow> int \<Rightarrow> u8 list \<Rightarrow> mux \<Rightarrow> mux" where
  "writeThread_send cid tmp buf s =
     (let nbytes = (of_int tmp :: u16);
          (tmp, s1) = write_phys [cid] s;
          c = nbytes_msb nbytes;
          (tmp, s2) = write_phys [c] s1;
          c = nbytes_lsb nbytes;
          (tmp, s3) = write_phys [c] s2;
          (tmp, s4) = write_phys (take (unat nbytes) buf) s3
      in if tmp \<noteq> uint nbytes then print_err (Write_failed nbytes tmp) s4 else s4)"

text \<open>The \<^verbatim>\<open>for\<close> loop over \<^verbatim>\<open>sVirtualPorts\<close>, lines 459-490: \<^verbatim>\<open>continue\<close> when the
  read returns less than 1, \<^verbatim>\<open>break\<close> when the flag is set after a packet.\<close>

fun writeThread_pass :: "vports \<Rightarrow> mux \<Rightarrow> mux" where
  "writeThread_pass [] s = s"
| "writeThread_pass ((cid, chan) # rest) s =
     (let (tmp, buf, s1) = read_pty (pty chan) (nat cMaxDataSize) s
      in if tmp < 1 then writeThread_pass rest s1
         else (let s2 = writeThread_send cid tmp buf s1
               in if terminateProcess s2 then s2 else writeThread_pass rest s2))"

text \<open>The outer loop, for at most \<open>k\<close> passes.\<close>

fun writeThread :: "nat \<Rightarrow> mux \<Rightarrow> mux" where
  "writeThread 0 s = s"
| "writeThread (Suc k) s =
     (if terminateProcess s then s
      else writeThread k (writeThread_pass (sVirtualPorts s) s))"

subsection \<open>main: the command line and the start of the channels (lines 162-268, 302-378)\<close>

text \<open>\<^verbatim>\<open>atoi\<close>: white space, an optional sign, then the leading decimal digits; 0 when
  there is none. (The C function is undefined beyond \<^verbatim>\<open>int\<close>; here the value is
  unbounded.)\<close>

definition isspace :: "char \<Rightarrow> bool" where
  "isspace c = (of_char c \<in> {9, 10, 11, 12, 13, 32 :: nat})"

definition isdigit :: "char \<Rightarrow> bool" where
  "isdigit c = (48 \<le> (of_char c :: nat) \<and> (of_char c :: nat) \<le> 57)"

fun digits :: "string \<Rightarrow> int \<Rightarrow> int" where
  "digits [] acc = acc"
| "digits (c # cs) acc =
     (if isdigit c then digits cs (10 * acc + (int (of_char c) - 48)) else acc)"

definition atoi :: "string \<Rightarrow> int" where
  "atoi str =
     (case dropWhile isspace str of
        [] \<Rightarrow> 0
      | c # cs \<Rightarrow>
          if c = CHR ''-'' then - digits cs 0
          else if c = CHR ''+'' then digits cs 0
          else digits (c # cs) 0)"

text \<open>Lines 193-198: the link path is what follows the first colon of the argument,
  empty when there is no colon.\<close>

definition link_of :: "string \<Rightarrow> string" where
  "link_of optarg =
     (case dropWhile (\<lambda>c. c \<noteq> CHR '':'') optarg of
        [] \<Rightarrow> []
      | colon # rest \<Rightarrow> rest)"

text \<open>What \<^verbatim>\<open>getopt(argc, argv, "c:h")\<close> returns, one option after the other.\<close>

datatype cmd_opt = Opt_c string | Opt_h | Opt_other

text \<open>The \<^verbatim>\<open>while\<close> loop of lines 173-210, from the channels registered so far:
  \<open>Inl\<close> is the exit status of a \<^verbatim>\<open>return\<close> inside the loop.\<close>

fun main_options :: "cmd_opt list \<Rightarrow> vports \<Rightarrow> int + vports" where
  "main_options [] m = Inr m"
| "main_options (Opt_c optarg # opts) m =
     (let n = atoi optarg
      in if n > cMaxChannelId \<or> n < 0 then Inl EXIT_FAILURE
         else (let chan = \<lparr>channelId = of_int n, pty = - 1,
                            linkPath = link_of optarg, ptyName = []\<rparr>
               in main_options opts (emplace (of_int n) chan m)))"
| "main_options (Opt_h # opts) m = Inl EXIT_SUCCESS"
| "main_options (Opt_other # opts) m = Inl EXIT_SUCCESS"

text \<open>The operating system at start-up: the results of \<^verbatim>\<open>open\<close> and \<^verbatim>\<open>tcsetattr\<close> on
  the serial port, of \<^verbatim>\<open>posix_openpt\<close> for each channel, of \<^verbatim>\<open>ptsname_r\<close> and of
  \<^verbatim>\<open>symlink\<close>.\<close>

record os =
  os_open :: "string \<Rightarrow> int"
  os_tcsetattr :: "int \<Rightarrow> int"
  os_openpt :: "u8 \<Rightarrow> int"
  os_ptsname :: "int \<Rightarrow> string"
  os_symlink :: "string \<Rightarrow> string \<Rightarrow> int"

definition configurePort :: "os \<Rightarrow> int \<Rightarrow> int" where
  "configurePort sys handle = os_tcsetattr sys handle"

definition openPysicalPort :: "os \<Rightarrow> string \<Rightarrow> int" where
  "openPysicalPort sys devPath =
     (let phys_tty = os_open sys devPath
      in if phys_tty < 0 then - 1
         else if configurePort sys phys_tty \<noteq> 0 then - 1
         else 0)"

definition startPty :: "os \<Rightarrow> ptyChan \<Rightarrow> int \<times> ptyChan" where
  "startPty sys chan =
     (let chan1 = chan\<lparr>pty := os_openpt sys (channelId chan)\<rparr>
      in if pty chan1 = - 1 then (- 1, chan1)
         else (let chan2 = chan1\<lparr>ptyName := os_ptsname sys (pty chan1)\<rparr>
               in if length (linkPath chan2) > 0
                  then (os_symlink sys (ptyName chan2) (linkPath chan2), chan2)
                  else (0, chan2)))"

text \<open>Lines 248-262: \<open>None\<close> when a channel cannot be started.\<close>

fun main_ports :: "os \<Rightarrow> vports \<Rightarrow> vports option" where
  "main_ports sys [] = Some []"
| "main_ports sys ((cid, chan) # m) =
     (case startPty sys chan of
        (rv, chan') \<Rightarrow>
          if rv \<noteq> 0 then None
          else map_option (\<lambda>m'. (cid, chan') # m') (main_ports sys m))"

text \<open>\<^verbatim>\<open>main\<close> up to the start of the two threads: \<open>Inl\<close> is the status the process
  exits with before that, \<open>Inr\<close> the channels the threads start with. The serial port
  is \<open>None\<close> when the command line has no argument after the options.\<close>

definition main :: "cmd_opt list \<Rightarrow> string option \<Rightarrow> os \<Rightarrow> int + vports" where
  "main opts port sys =
     (case main_options opts [] of
        Inl status \<Rightarrow> Inl status
      | Inr m \<Rightarrow>
          if length m < 1 then Inl EXIT_FAILURE
          else (case port of
                  None \<Rightarrow> Inl EXIT_FAILURE
                | Some serialPortPath \<Rightarrow>
                    if openPysicalPort sys serialPortPath \<noteq> 0 then Inl EXIT_FAILURE
                    else (case main_ports sys m of
                            None \<Rightarrow> Inl EXIT_FAILURE
                          | Some m' \<Rightarrow> Inr m')))"

subsection \<open>Notions used in the statements\<close>

text \<open>The messages \<^verbatim>\<open>readThread\<close> prints while it passes on the bytes of a packet.\<close>

definition payload_messages :: "u8 list \<Rightarrow> message list" where
  "payload_messages p = concat (map (\<lambda>b. [Read_bytes 1, Wrote_bytes 1]) p)"

text \<open>The bytes of a sequence of packets, each given by its channel id and data.\<close>

definition packets :: "(u8 \<times> u8 list) list \<Rightarrow> u8 list" where
  "packets fs = concat (map (\<lambda>f. encode (fst f) (snd f)) fs)"

text \<open>The data of the packets of one channel, in order.\<close>

definition data_of :: "u8 \<Rightarrow> (u8 \<times> u8 list) list \<Rightarrow> u8 list" where
  "data_of cid fs = concat (map snd (filter (\<lambda>f. fst f = cid) fs))"

text \<open>The bytes written to one descriptor, in order.\<close>

definition written_to :: "int \<Rightarrow> (int \<times> u8) list \<Rightarrow> u8 list" where
  "written_to fd ws = map snd (filter (\<lambda>w. fst w = fd) ws)"

text \<open>A sequence of calls \<^verbatim>\<open>write(phys_tty, ...)\<close> that is a sequence of packets, each
  sent as channel id, two length bytes and data, with a length from 1 to
  \<^verbatim>\<open>cMaxDataSize\<close> that is the length of the data.\<close>

fun packet_calls :: "u8 list list \<Rightarrow> bool" where
  "packet_calls [] = True"
| "packet_calls ([cid] # [hi] # [lo] # buf # calls) =
     (1 \<le> unat (nbytes_of hi lo) \<and> unat (nbytes_of hi lo) \<le> nat cMaxDataSize \<and>
      length buf = unat (nbytes_of hi lo) \<and> packet_calls calls)"
| "packet_calls calls = False"

text \<open>The usual command line, \<^verbatim>\<open>serial-mux -c10:/tmp/ptyA -c20:/tmp/ptyB /dev/ttyp0\<close>,
  on a system where everything succeeds: descriptor 3 for the serial port, 4 for
  channel 10 and 5 for every other channel.\<close>

definition sys0 :: os where
  "sys0 =
     \<lparr>os_open = (\<lambda>path. 3), os_tcsetattr = (\<lambda>fd. 0),
      os_openpt = (\<lambda>cid. if cid = 10 then 4 else 5),
      os_ptsname = (\<lambda>fd. if fd = 4 then ''/dev/pts/1'' else ''/dev/pts/2''),
      os_symlink = (\<lambda>target path. 0)\<rparr>"

definition chanA :: ptyChan where
  "chanA = \<lparr>channelId = 10, pty = 4, linkPath = ''/tmp/ptyA'', ptyName = ''/dev/pts/1''\<rparr>"

definition chanB :: ptyChan where
  "chanB = \<lparr>channelId = 20, pty = 5, linkPath = ''/tmp/ptyB'', ptyName = ''/dev/pts/2''\<rparr>"

definition ports0 :: vports where
  "ports0 = [(10, chanA), (20, chanB)]"

section \<open>Properties\<close>

subsection \<open>The two length bytes\<close>

lemma ff16: "(0xFF :: u16) = mask 8" by (simp add: mask_eq_exp_minus_1)

lemma unat_nbytes_lsb: "unat (nbytes_lsb n) = unat n mod 256"
  unfolding nbytes_lsb_def ff16
  by (simp add: unsigned_ucast_eq unsigned_take_bit_eq flip: take_bit_eq_mask)
    (simp add: take_bit_eq_mod)

lemma unat_nbytes_msb: "unat (nbytes_msb n) = unat n div 256"
proof -
  have "unat n < 65536" using unsigned_less [of n, where 'a = nat] by simp
  then have "unat n div 256 < 256" by simp
  then show ?thesis
    unfolding nbytes_msb_def ff16
    by (simp add: unsigned_ucast_eq unsigned_take_bit_eq unat_drop_bit_eq flip: take_bit_eq_mask)
      (simp add: take_bit_eq_mod drop_bit_eq_div)
qed

lemma unat_nbytes_of: "unat (nbytes_of hi lo) = 256 * unat hi + unat lo"
proof -
  have hi: "unat hi < 256" using unsigned_less [of hi, where 'a = nat] by simp
  have lo: "unat lo < 256" using unsigned_less [of lo, where 'a = nat] by simp
  have a: "unat (push_bit 8 (ucast hi AND (0xFF :: u16))) = 256 * unat hi"
    unfolding ff16 using hi
    by (simp add: unsigned_push_bit_eq unsigned_ucast_eq unsigned_take_bit_eq flip: take_bit_eq_mask)
      (simp add: take_bit_eq_mod push_bit_eq_mult)
  have b: "unat (ucast lo AND (0xFF :: u16)) = unat lo"
    unfolding ff16 using lo
    by (simp add: unsigned_ucast_eq unsigned_take_bit_eq flip: take_bit_eq_mask)
      (simp add: take_bit_eq_mod)
  have "unat (push_bit 8 (ucast hi AND (0xFF :: u16))) + unat (ucast lo AND (0xFF :: u16)) < 2 ^ LENGTH(16)"
    unfolding a b using hi lo by simp
  then have "unat (nbytes_of hi lo) = unat (push_bit 8 (ucast hi AND (0xFF :: u16))) + unat (ucast lo AND (0xFF :: u16))"
    unfolding nbytes_of_def by (simp only: unat_add_lem)
  then show ?thesis by (simp only: a b)
qed

lemma nbytes_roundtrip: "nbytes_of (nbytes_msb n) (nbytes_lsb n) = n"
proof -
  have "unat (nbytes_of (nbytes_msb n) (nbytes_lsb n)) = unat n"
    by (simp add: unat_nbytes_of unat_nbytes_msb unat_nbytes_lsb)
  then show ?thesis by (simp only: word_unat_eq_iff)
qed

lemma unat_length_u16:
  "length buf \<le> nat cMaxDataSize \<Longrightarrow> unat (of_nat (length buf) :: u16) = length buf"
  by (simp add: cMaxDataSize_def unat_of_nat)

lemma encode_packet:
  "length buf \<le> nat cMaxDataSize \<Longrightarrow>
   encode cid buf =
     cid # nbytes_msb (of_nat (length buf)) # nbytes_lsb (of_nat (length buf)) # buf"
  by (simp add: encode_def unat_length_u16 Let_def)

subsection \<open>readThread on a packet whose bytes are all there\<close>

lemma read_tmp_Some:
  "phys_in s = Some b # rest \<Longrightarrow> read_tmp s = (1, s\<lparr>rd_tmp := b, phys_in := rest\<rparr>)"
  by (simp add: read_tmp_def read_phys_def)

lemma readThread_header_packet:
  assumes "phys_in s = Some cid # Some hi # Some lo # rest"
  shows "readThread_header s =
    (Some (cid, nbytes_of hi lo),
     s\<lparr>rd_tmp := lo, phys_in := rest,
       cout := cout s @ [Read_cid cid, Read_nbytes (nbytes_of hi lo)]\<rparr>)"
  using assms
  by (simp add: readThread_header_def read_phys_def read_tmp_def print_out_def Let_def)

lemma readThread_payload_bytes:
  "\<not> terminateProcess s \<Longrightarrow> phys_in s = map Some p @ rest \<Longrightarrow>
   readThread_payload (length p) chan s =
     s\<lparr>rd_tmp := last (rd_tmp s # p), phys_in := rest,
       pty_writes := pty_writes s @ map (Pair (pty chan)) p,
       cout := cout s @ payload_messages p\<rparr>"
proof (induction p arbitrary: s)
  case Nil
  then show ?case by (simp add: payload_messages_def)
next
  case (Cons b p)
  let ?s = "print_out (Wrote_bytes 1) (write_pty (pty chan) b (print_out (Read_bytes 1) (s\<lparr>rd_tmp := b, phys_in := map Some p @ rest\<rparr>)))"
  have "readThread_payload (length (b # p)) chan s = readThread_payload (length p) chan ?s"
    using Cons.prems by (simp add: read_tmp_Some print_out_def write_pty_def)
  also have "\<dots> = ?s\<lparr>rd_tmp := last (rd_tmp ?s # p), phys_in := rest,
       pty_writes := pty_writes ?s @ map (Pair (pty chan)) p,
       cout := cout ?s @ payload_messages p\<rparr>"
    using Cons.prems by (intro Cons.IH) (simp_all add: print_out_def write_pty_def)
  also have "\<dots> = s\<lparr>rd_tmp := last (rd_tmp s # b # p), phys_in := rest,
       pty_writes := pty_writes s @ map (Pair (pty chan)) (b # p),
       cout := cout s @ payload_messages (b # p)\<rparr>"
    by (simp add: print_out_def write_pty_def payload_messages_def)
  finally show ?case .
qed

text \<open>One turn of the loop on a packet, for a channel that is registered or not: the
  bytes go to the descriptor of the entry that \<^verbatim>\<open>sVirtualPorts[cid]\<close> returns.\<close>

lemma readThread_iter_packet:
  assumes run: "\<not> terminateProcess s"
    and len: "length payload \<le> nat cMaxDataSize"
    and inp: "phys_in s = map Some (encode cid payload) @ rest"
  shows "readThread_iter s =
     s\<lparr>sVirtualPorts := snd (subscript (sVirtualPorts s) cid),
       rd_tmp := last (nbytes_lsb (of_nat (length payload)) # payload), phys_in := rest,
       pty_writes := pty_writes s
          @ map (Pair (pty (fst (subscript (sVirtualPorts s) cid)))) payload,
       cout := cout s @ [Read_cid cid, Read_nbytes (of_nat (length payload))]
                 @ payload_messages payload\<rparr>"
proof -
  let ?n = "of_nat (length payload) :: u16"
  let ?chan = "fst (subscript (sVirtualPorts s) cid)"
  let ?m = "snd (subscript (sVirtualPorts s) cid)"
  let ?s1 = "s\<lparr>rd_tmp := nbytes_lsb ?n, phys_in := map Some payload @ rest,
       cout := cout s @ [Read_cid cid, Read_nbytes ?n]\<rparr>"
  let ?s2 = "?s1\<lparr>sVirtualPorts := ?m\<rparr>"
  have inp': "phys_in s = Some cid # Some (nbytes_msb ?n) # Some (nbytes_lsb ?n) # (map Some payload @ rest)"
    using inp len by (simp add: encode_packet)
  have hd: "readThread_header s = (Some (cid, ?n), ?s1)"
    by (simp add: readThread_header_packet [OF inp'] nbytes_roundtrip)
  have "readThread_iter s = readThread_payload (length payload) ?chan ?s2"
    using len by (simp add: readThread_iter_def hd unat_length_u16 split_beta)
  also have "\<dots> = ?s2\<lparr>rd_tmp := last (rd_tmp ?s2 # payload), phys_in := rest,
       pty_writes := pty_writes ?s2 @ map (Pair (pty ?chan)) payload,
       cout := cout ?s2 @ payload_messages payload\<rparr>"
    using run by (intro readThread_payload_bytes) simp_all
  finally show ?thesis by simp
qed

lemma subscript_registered:
  "map_of m cid = Some chan \<Longrightarrow> subscript m cid = (chan, m)"
  by (simp add: subscript_def)

lemma readThread_iter_registered:
  assumes "map_of (sVirtualPorts s) cid = Some chan"
    and "\<not> terminateProcess s"
    and "length payload \<le> nat cMaxDataSize"
    and "phys_in s = map Some (encode cid payload) @ rest"
  shows "readThread_iter s =
     s\<lparr>rd_tmp := last (nbytes_lsb (of_nat (length payload)) # payload), phys_in := rest,
       pty_writes := pty_writes s @ map (Pair (pty chan)) payload,
       cout := cout s @ [Read_cid cid, Read_nbytes (of_nat (length payload))]
                 @ payload_messages payload\<rparr>"
  by (simp add: readThread_iter_packet [OF assms(2-4)] subscript_registered [OF assms(1)])

text \<open>
  C1. For every channel id (a byte, 0 to 255) and every payload of length 0 to
  \<^verbatim>\<open>cMaxDataSize\<close> = 1000, decoding the bytes produced by encoding (the channel id,
  the two length bytes most significant first, the payload) gives back the same
  channel id and the same payload. Encoding is what \<^verbatim>\<open>writeThread\<close> sends (lines
  471-478), decoding is what \<^verbatim>\<open>readThread\<close> reads (lines 413-439).
\<close>

theorem decode_encode:
  assumes "length payload \<le> nat cMaxDataSize"
  shows "decode (encode cid payload) = Some (cid, payload)"
proof -
  let ?n = "of_nat (length payload) :: u16"
  let ?s = "on_wire (encode cid payload)"
  let ?s1 = "?s\<lparr>rd_tmp := nbytes_lsb ?n, phys_in := map Some payload @ [],
       cout := cout ?s @ [Read_cid cid, Read_nbytes ?n]\<rparr>"
  have inp: "phys_in ?s = Some cid # Some (nbytes_msb ?n) # Some (nbytes_lsb ?n) # (map Some payload @ [])"
    using assms by (simp add: encode_packet on_wire_def)
  have hd: "readThread_header ?s = (Some (cid, ?n), ?s1)"
    by (simp add: readThread_header_packet [OF inp] nbytes_roundtrip)
  have "readThread_payload (length payload) ptyChan_default ?s1 =
      ?s1\<lparr>rd_tmp := last (rd_tmp ?s1 # payload), phys_in := [],
       pty_writes := pty_writes ?s1 @ map (Pair (pty ptyChan_default)) payload,
       cout := cout ?s1 @ payload_messages payload\<rparr>"
    by (intro readThread_payload_bytes) (simp_all add: on_wire_def started_def)
  then have "map snd (pty_writes (readThread_payload (length payload) ptyChan_default ?s1)) = payload"
    by (simp add: on_wire_def started_def comp_def)
  then show ?thesis
    using assms by (simp add: decode_def hd unat_length_u16)
qed

theorem decode_encode_witness:
  "length [0x68, 0x69 :: u8] \<le> nat cMaxDataSize \<and>
   decode (encode 10 [0x68, 0x69]) = Some (10, [0x68, 0x69])"
  using decode_encode [of "[0x68, 0x69]" 10] by (simp add: cMaxDataSize_def)

text \<open>On a packet of a registered channel whose bytes are all there, one turn of the
  loop writes the payload to the descriptor of the channel, reads exactly the packet,
  and leaves the map of channels alone.\<close>

lemma readThread_whole_packet:
  assumes "map_of (sVirtualPorts s) cid = Some chan"
    and "\<not> terminateProcess s"
    and "length payload \<le> nat cMaxDataSize"
    and "phys_in s = map Some (encode cid payload) @ rest"
  shows "pty_writes (readThread_iter s) = pty_writes s @ map (Pair (pty chan)) payload
    \<and> phys_in (readThread_iter s) = rest
    \<and> sVirtualPorts (readThread_iter s) = sVirtualPorts s"
  by (simp add: readThread_iter_registered [OF assms])

lemma readThread_whole_packet_example:
  "encode 10 [0x61, 0x62, 0x63] = [0x0A, 0x00, 0x03, 0x61, 0x62, 0x63]
   \<and> pty_writes (readThread_iter
         ((started ports0)\<lparr>phys_in := map Some (encode 10 [0x61, 0x62, 0x63])\<rparr>))
       = [(4, 0x61), (4, 0x62), (4, 0x63)]
   \<and> phys_in (readThread_iter
         ((started ports0)\<lparr>phys_in := map Some (encode 10 [0x61, 0x62, 0x63])\<rparr>)) = []"
  by code_simp

text \<open>
  C5. The claim: for every packet received on a registered channel, with a length
  not above \<^verbatim>\<open>cMaxDataSize\<close>, \<^verbatim>\<open>readThread\<close> writes to the channel exactly the bytes of
  the payload, as many and in the same order, nothing added and nothing left out.
  Line 414 checks that its read returned one byte; lines 423, 425 and 434 do not,
  and the serial port does not block. With channels 10 and 20 registered, the
  packet \<^verbatim>\<open>0A 00 02 61 62\<close> arrives with its last byte late: the read before it finds
  nothing. \<^verbatim>\<open>readThread\<close> writes \<^verbatim>\<open>61 61\<close> to channel 10, the stale \<^verbatim>\<open>tmp\<close> in place of
  \<^verbatim>\<open>62\<close>, and leaves \<^verbatim>\<open>62\<close> to be read as the channel id of the next packet.
\<close>

theorem readThread_stale_byte:
  "map_of (sVirtualPorts (started ports0)) 10 = Some chanA
   \<and> encode 10 [0x61, 0x62] = [0x0A, 0x00, 0x02, 0x61, 0x62]
   \<and> pty_writes (readThread_iter ((started ports0)
        \<lparr>phys_in := [Some 0x0A, Some 0x00, Some 0x02, Some 0x61, None, Some 0x62]\<rparr>))
       = [(4, 0x61), (4, 0x61)]
   \<and> phys_in (readThread_iter ((started ports0)
        \<lparr>phys_in := [Some 0x0A, Some 0x00, Some 0x02, Some 0x61, None, Some 0x62]\<rparr>))
       = [Some 0x62]"
  by code_simp

subsection \<open>The map of channels\<close>

lemma map_of_emplace_other:
  "c \<noteq> k \<Longrightarrow> map_of (emplace k v m) c = map_of m c"
  by (induction m) auto

lemma map_of_emplace_new:
  "map_of m k = None \<Longrightarrow> map_of (emplace k v m) k = Some v"
  by (induction m) auto

lemma keys_emplace:
  "set (map fst (emplace k v m)) = insert k (set (map fst m))"
proof (induction m)
  case Nil
  then show ?case by simp
next
  case (Cons e m)
  obtain k' v' where e: "e = (k', v')" by (cases e)
  show ?case using Cons.IH unfolding e by (cases "k < k'"; cases "k = k'") auto
qed

lemma sorted_emplace:
  "sorted_wrt (<) (map fst m) \<Longrightarrow> sorted_wrt (<) (map fst (emplace k v m))"
proof (induction m)
  case Nil
  then show ?case by simp
next
  case (Cons e m)
  obtain k' v' where e: "e = (k', v')" by (cases e)
  show ?case
  proof (cases "k < k'")
    case True
    with Cons.prems e show ?thesis by auto
  next
    case False
    show ?thesis
    proof (cases "k = k'")
      case True
      with Cons.prems e show ?thesis by simp
    next
      case ne: False
      with False have gt: "k' < k" by simp
      have "\<forall>x \<in> set (map fst (emplace k v m)). k' < x"
        using Cons.prems e gt by (simp only: keys_emplace) auto
      with Cons e False ne show ?thesis by simp
    qed
  qed
qed

lemma emplace_present:
  "sorted_wrt (<) (map fst m) \<Longrightarrow> map_of m k = Some v' \<Longrightarrow> emplace k v m = m"
proof (induction m)
  case Nil
  then show ?case by simp
next
  case (Cons e m)
  obtain k' w where e: "e = (k', w)" by (cases e)
  show ?case
  proof (cases "k = k'")
    case True
    with e show ?thesis by simp
  next
    case False
    with Cons.prems e have "map_of m k = Some v'" by simp
    then have "k \<in> set (map fst m)" by (metis map_of_eq_None_iff option.distinct(1) set_map)
    with Cons.prems e have "k' < k" by auto
    with Cons e False \<open>map_of m k = Some v'\<close> show ?thesis by simp
  qed
qed

lemma subscript_unregistered:
  "map_of m cid = None \<Longrightarrow> subscript m cid = (ptyChan_default, emplace cid ptyChan_default m)"
  by (simp add: subscript_def)

subsection \<open>readThread on a sequence of packets\<close>

lemma readThread_packets:
  assumes "\<not> terminateProcess s"
    and "\<forall>f \<in> set fs. map_of (sVirtualPorts s) (fst f) \<noteq> None \<and> length (snd f) \<le> nat cMaxDataSize"
    and "phys_in s = map Some (packets fs) @ rest"
  shows "sVirtualPorts (readThread (length fs) s) = sVirtualPorts s
    \<and> phys_in (readThread (length fs) s) = rest
    \<and> pty_writes (readThread (length fs) s) =
        pty_writes s @ concat (map (\<lambda>f. map (Pair (pty (the (map_of (sVirtualPorts s) (fst f))))) (snd f)) fs)"
  using assms
proof (induction fs arbitrary: s)
  case Nil
  then show ?case by (simp add: packets_def)
next
  case (Cons f fs)
  obtain chan where reg: "map_of (sVirtualPorts s) (fst f) = Some chan"
    using Cons.prems(2) by auto
  have len: "length (snd f) \<le> nat cMaxDataSize" using Cons.prems(2) by simp
  have inp: "phys_in s = map Some (encode (fst f) (snd f)) @ (map Some (packets fs) @ rest)"
    using Cons.prems(3) by (simp add: packets_def)
  note it = readThread_iter_registered [OF reg Cons.prems(1) len inp]
  let ?s = "readThread_iter s"
  have a: "\<not> terminateProcess ?s" using Cons.prems(1) by (simp add: it)
  have m: "sVirtualPorts ?s = sVirtualPorts s" by (simp add: it)
  have b: "\<forall>f \<in> set fs. map_of (sVirtualPorts ?s) (fst f) \<noteq> None \<and> length (snd f) \<le> nat cMaxDataSize"
    using Cons.prems(2) by (simp add: m)
  have c: "phys_in ?s = map Some (packets fs) @ rest" by (simp add: it)
  have w: "pty_writes ?s = pty_writes s @ map (Pair (pty chan)) (snd f)" by (simp add: it)
  have step: "readThread (length (f # fs)) s = readThread (length fs) ?s"
    using Cons.prems(1) by simp
  show ?case
    unfolding step using Cons.IH [OF a b c] by (simp add: m w reg)
qed

lemma written_to_append:
  "written_to fd (xs @ ys) = written_to fd xs @ written_to fd ys"
  by (simp add: written_to_def)

lemma written_to_packets:
  "written_to fd (concat (map (\<lambda>f. map (Pair (dest (fst f))) (snd f)) fs)) =
   concat (map snd (filter (\<lambda>f. dest (fst f) = fd) fs))"
  by (induction fs) (auto simp: written_to_def comp_def)

text \<open>
  C2. The claim: no turn of the two loops inserts or removes an entry of
  \<^verbatim>\<open>sVirtualPorts\<close>. \<^verbatim>\<open>writeThread\<close> and a packet of a registered channel leave the
  map alone, but line 429 is \<^verbatim>\<open>&sVirtualPorts[cid]\<close>: with channels 10 and 20
  registered, the packet \<^verbatim>\<open>07 00 01 78\<close> inserts an entry for channel 7, a
  value-initialised one.
\<close>

theorem readThread_inserts_channel:
  "map fst (sVirtualPorts (started ports0)) = [10, 20]
   \<and> encode 7 [0x78] = [0x07, 0x00, 0x01, 0x78]
   \<and> map fst (sVirtualPorts (readThread_iter
        ((started ports0)\<lparr>phys_in := map Some (encode 7 [0x78])\<rparr>))) = [7, 10, 20]
   \<and> map_of (sVirtualPorts (readThread_iter
        ((started ports0)\<lparr>phys_in := map Some (encode 7 [0x78])\<rparr>))) 7 = Some ptyChan_default"
  by code_simp

text \<open>A packet of a channel that is not registered, its bytes all there, is read
  whole, and a packet of a registered channel that follows at once is passed on to
  its channel.\<close>

lemma readThread_unregistered_aligned:
  assumes "map_of (sVirtualPorts s) u = None"
    and "map_of (sVirtualPorts s) cid = Some chan"
    and "\<not> terminateProcess s"
    and "length junk \<le> nat cMaxDataSize"
    and "length payload \<le> nat cMaxDataSize"
    and "phys_in s = map Some (encode u junk @ encode cid payload) @ rest"
  shows "phys_in (readThread_iter s) = map Some (encode cid payload) @ rest
    \<and> cout (readThread_iter s) =
        cout s @ [Read_cid u, Read_nbytes (of_nat (length junk))] @ payload_messages junk
    \<and> pty_writes (readThread 2 s) =
        pty_writes (readThread_iter s) @ map (Pair (pty chan)) payload
    \<and> phys_in (readThread 2 s) = rest"
proof -
  have inp: "phys_in s = map Some (encode u junk) @ (map Some (encode cid payload) @ rest)"
    using assms(6) by simp
  note it = readThread_iter_packet [OF assms(3,4) inp]
  let ?s = "readThread_iter s"
  have m: "sVirtualPorts ?s = emplace u ptyChan_default (sVirtualPorts s)"
    by (simp add: it subscript_unregistered [OF assms(1)])
  have "u \<noteq> cid" using assms(1,2) by auto
  then have reg: "map_of (sVirtualPorts ?s) cid = Some chan"
    using assms(2) by (simp add: m map_of_emplace_other)
  have run: "\<not> terminateProcess ?s" using assms(3) by (simp add: it)
  have inp2: "phys_in ?s = map Some (encode cid payload) @ rest" by (simp add: it)
  note it2 = readThread_iter_registered [OF reg run assms(5) inp2]
  have two: "readThread 2 s = readThread_iter ?s"
    using assms(3) run by (simp add: numeral_2_eq_2)
  show ?thesis
    unfolding two by (simp add: it2) (simp add: it)
qed

lemma readThread_unregistered_aligned_example:
  "phys_in (readThread_iter ((started ports0)
      \<lparr>phys_in := map Some (encode 7 [0x78] @ encode 20 [0x61, 0x62])\<rparr>))
      = map Some [0x14, 0x00, 0x02, 0x61, 0x62]
   \<and> pty_writes (readThread 2 ((started ports0)
      \<lparr>phys_in := map Some (encode 7 [0x78] @ encode 20 [0x61, 0x62])\<rparr>))
      = [(0, 0x78), (5, 0x61), (5, 0x62)]"
  by code_simp

text \<open>
  C3. The claim: a packet of a channel that is not registered is read whole and
  its payload discarded, written to no channel, so that the packet after it is
  read correctly. With channels 10 and 20 registered, the payload of the packet
  \<^verbatim>\<open>07 00 01 78\<close> is not discarded: the entry that line 429 inserts for channel 7
  has descriptor 0, and line 436 writes the payload there.
\<close>

theorem unregistered_payload_written:
  "map_of (sVirtualPorts (started ports0)) 7 = None
   \<and> pty_writes (readThread_iter
        ((started ports0)\<lparr>phys_in := map Some (encode 7 [0x78])\<rparr>)) = [(0, 0x78)]
   \<and> pty_writes (readThread_iter
        ((started ports0)\<lparr>phys_in := map Some (encode 7 [0x78])\<rparr>))
       \<noteq> pty_writes ((started ports0)\<lparr>phys_in := map Some (encode 7 [0x78])\<rparr>)"
  by code_simp

text \<open>Packets of two registered channels with their own descriptors, the bytes of
  each packet all there, in any order: what is written to each descriptor grows by
  exactly the payloads of that channel's packets.\<close>

lemma readThread_whole_packets_isolated:
  assumes "map_of (sVirtualPorts s) a = Some cha"
    and "map_of (sVirtualPorts s) b = Some chb"
    and "pty cha \<noteq> pty chb"
    and "\<not> terminateProcess s"
    and "\<forall>f \<in> set fs. (fst f = a \<or> fst f = b) \<and> length (snd f) \<le> nat cMaxDataSize"
    and "phys_in s = map Some (packets fs) @ rest"
  shows "written_to (pty cha) (pty_writes (readThread (length fs) s)) =
           written_to (pty cha) (pty_writes s) @ data_of a fs
    \<and> written_to (pty chb) (pty_writes (readThread (length fs) s)) =
           written_to (pty chb) (pty_writes s) @ data_of b fs"
proof -
  let ?dest = "\<lambda>c. pty (the (map_of (sVirtualPorts s) c))"
  have ne: "a \<noteq> b" using assms(1-3) by auto
  have reg: "\<forall>f \<in> set fs. map_of (sVirtualPorts s) (fst f) \<noteq> None \<and> length (snd f) \<le> nat cMaxDataSize"
    using assms(1,2,5) by auto
  have w: "pty_writes (readThread (length fs) s) =
      pty_writes s @ concat (map (\<lambda>f. map (Pair (?dest (fst f))) (snd f)) fs)"
    using readThread_packets [OF assms(4) reg assms(6)] by simp
  have fa: "filter (\<lambda>f. ?dest (fst f) = pty cha) fs = filter (\<lambda>f. fst f = a) fs"
    using assms(1-3,5) ne by (intro filter_cong) auto
  have fb: "filter (\<lambda>f. ?dest (fst f) = pty chb) fs = filter (\<lambda>f. fst f = b) fs"
    using assms(1-3,5) ne by (intro filter_cong) auto
  show ?thesis
    unfolding w written_to_append written_to_packets [of _ ?dest] fa fb
    by (simp add: data_of_def)
qed

lemma readThread_whole_packets_isolated_example:
  "written_to (pty chanA) (pty_writes (readThread 3 ((started ports0)\<lparr>phys_in :=
        map Some (packets [(10, [1, 2]), (20, [3]), (10, [4])])\<rparr>))) = [1, 2, 4]
   \<and> written_to (pty chanB) (pty_writes (readThread 3 ((started ports0)\<lparr>phys_in :=
        map Some (packets [(10, [1, 2]), (20, [3]), (10, [4])])\<rparr>))) = [3]"
  by code_simp

text \<open>
  C4. The claim: for two registered channels A and B, in whatever order packets
  arrive, the payload of a packet of A is written to the descriptor of A only and
  never to that of B. Lines 423, 425 and 434 do not look at the result of the read,
  and the serial port does not block. With channels 10 (descriptor 4) and 20
  (descriptor 5) registered, the packet \<^verbatim>\<open>0A 00 05 AA 14 00 01 99\<close> of channel 10
  arrives with its payload late: four reads find nothing. \<^verbatim>\<open>readThread\<close> writes the
  stale \<^verbatim>\<open>tmp\<close> four times and then \<^verbatim>\<open>AA\<close> to channel 10, and takes the rest of the
  payload, \<^verbatim>\<open>14 00 01 99\<close>, for a packet of channel 20: the byte \<^verbatim>\<open>99\<close>, carried in a
  packet of channel 10, is written to channel 20.
\<close>

theorem readThread_gap_misroutes:
  "map_of (sVirtualPorts (started ports0)) 10 = Some chanA
   \<and> map_of (sVirtualPorts (started ports0)) 20 = Some chanB
   \<and> pty chanA = 4 \<and> pty chanB = 5
   \<and> encode 10 [0xAA, 0x14, 0x00, 0x01, 0x99]
       = [0x0A, 0x00, 0x05, 0xAA, 0x14, 0x00, 0x01, 0x99]
   \<and> pty_writes (readThread 2 ((started ports0)
        \<lparr>phys_in := [Some 0x0A, Some 0x00, Some 0x05, None, None, None, None,
                      Some 0xAA, Some 0x14, Some 0x00, Some 0x01, Some 0x99]\<rparr>))
       = [(4, 0x05), (4, 0x05), (4, 0x05), (4, 0x05), (4, 0xAA), (5, 0x99)]
   \<and> written_to (pty chanB) (pty_writes (readThread 2 ((started ports0)
        \<lparr>phys_in := [Some 0x0A, Some 0x00, Some 0x05, None, None, None, None,
                      Some 0xAA, Some 0x14, Some 0x00, Some 0x01, Some 0x99]\<rparr>)))
       = [0x99]"
  by code_simp

subsection \<open>writeThread: one packet\<close>

lemma write_phys_calls:
  "phys_calls (snd (write_phys d s)) = phys_calls s @ [(d, fst (write_phys d s))]"
  by (simp add: write_phys_def split: list.split)

lemma write_phys_result:
  "fst (write_phys d s) = (case phys_results s of [] \<Rightarrow> int (length d) | r # rs \<Rightarrow> r)"
  by (simp add: write_phys_def split: list.split)

lemma write_phys_results:
  "phys_results (snd (write_phys d s)) = tl (phys_results s)"
  by (simp add: write_phys_def split: list.split)

lemma write_phys_others:
  "sVirtualPorts (snd (write_phys d s)) = sVirtualPorts s"
  "terminateProcess (snd (write_phys d s)) = terminateProcess s"
  "pty_in (snd (write_phys d s)) = pty_in s"
  "pty_reads (snd (write_phys d s)) = pty_reads s"
  "cerr (snd (write_phys d s)) = cerr s"
  by (simp_all add: write_phys_def split: list.split)

lemma writeThread_send_calls:
  "map fst (phys_calls (writeThread_send cid tmp buf s)) =
     map fst (phys_calls s)
       @ [[cid], [nbytes_msb (of_int tmp)], [nbytes_lsb (of_int tmp)],
          take (unat (of_int tmp :: u16)) buf]"
  by (simp add: writeThread_send_def Let_def split_beta print_err_def write_phys_calls)

lemma writeThread_send_others:
  "sVirtualPorts (writeThread_send cid tmp buf s) = sVirtualPorts s"
  "terminateProcess (writeThread_send cid tmp buf s) = terminateProcess s"
  "pty_in (writeThread_send cid tmp buf s) = pty_in s"
  "pty_reads (writeThread_send cid tmp buf s) = pty_reads s"
  by (simp_all add: writeThread_send_def Let_def split_beta print_err_def write_phys_others)

text \<open>The result of the fourth call is the one compared with \<^verbatim>\<open>nbytes\<close>: when it
  differs, one message is printed, and the four calls are all there is.\<close>

lemma writeThread_send_short:
  assumes "phys_results s = r1 # r2 # r3 # r # rs"
    and "r \<noteq> uint (of_int tmp :: u16)"
  shows "cerr (writeThread_send cid tmp buf s) = cerr s @ [Write_failed (of_int tmp) r]
    \<and> phys_calls (writeThread_send cid tmp buf s) =
        phys_calls s
          @ [([cid], r1), ([nbytes_msb (of_int tmp)], r2), ([nbytes_lsb (of_int tmp)], r3),
             (take (unat (of_int tmp :: u16)) buf, r)]
    \<and> phys_results (writeThread_send cid tmp buf s) = rs"
  using assms
  by (simp add: writeThread_send_def Let_def split_beta print_err_def write_phys_def)

lemma read_pty_empty:
  "pty_in s fd = [] \<Longrightarrow>
   read_pty fd count s =
     (if pty_eof s fd then 0 else - 1, [], s\<lparr>pty_reads := pty_reads s @ [fd]\<rparr>)"
  by (simp add: read_pty_def)

lemma read_pty_nothing:
  "pty_in s fd = [] \<Longrightarrow> fst (read_pty fd count s) < 1"
  by (simp add: read_pty_def)

lemma read_pty_data:
  "pty_in s fd \<noteq> [] \<Longrightarrow>
   read_pty fd count s =
     (int (length (take count (pty_in s fd))), take count (pty_in s fd),
      s\<lparr>pty_reads := pty_reads s @ [fd],
        pty_in := (pty_in s)(fd := drop count (pty_in s fd))\<rparr>)"
  by (simp add: read_pty_def Let_def)

subsection \<open>writeThread: one pass over the channels\<close>

lemma writeThread_pass_ports:
  "sVirtualPorts (writeThread_pass m s) = sVirtualPorts s"
proof (induction m arbitrary: s)
  case Nil
  then show ?case by simp
next
  case (Cons e m)
  obtain cid chan where e: "e = (cid, chan)" by (cases e)
  show ?case
    unfolding e
    by (cases "pty_in s (pty chan) = []")
      (simp_all add: read_pty_empty read_pty_data Cons.IH writeThread_send_others Let_def)
qed

lemma writeThread_pass_flag:
  "terminateProcess (writeThread_pass m s) = terminateProcess s"
proof (induction m arbitrary: s)
  case Nil
  then show ?case by simp
next
  case (Cons e m)
  obtain cid chan where e: "e = (cid, chan)" by (cases e)
  show ?case
    unfolding e
    by (cases "pty_in s (pty chan) = []")
      (simp_all add: read_pty_empty read_pty_data Cons.IH writeThread_send_others Let_def)
qed

lemma writeThread_pass_reads:
  "\<not> terminateProcess s \<Longrightarrow>
   pty_reads (writeThread_pass m s) = pty_reads s @ map (\<lambda>e. pty (snd e)) m"
proof (induction m arbitrary: s)
  case Nil
  then show ?case by simp
next
  case (Cons e m)
  obtain cid chan where e: "e = (cid, chan)" by (cases e)
  show ?case
    unfolding e using Cons.prems
    by (cases "pty_in s (pty chan) = []")
      (simp_all add: read_pty_empty read_pty_data Cons.IH writeThread_send_others Let_def)
qed

lemma writeThread_pass_idle:
  "\<forall>e \<in> set m. pty_in s (pty (snd e)) = [] \<Longrightarrow>
   phys_calls (writeThread_pass m s) = phys_calls s"
proof (induction m arbitrary: s)
  case Nil
  then show ?case by simp
next
  case (Cons e m)
  obtain cid chan where e: "e = (cid, chan)" by (cases e)
  from Cons.prems e have emp: "pty_in s (pty chan) = []" by simp
  let ?s1 = "s\<lparr>pty_reads := pty_reads s @ [pty chan]\<rparr>"
  have "\<forall>e \<in> set m. pty_in ?s1 (pty (snd e)) = []" using Cons.prems by simp
  from Cons.IH [OF this] show ?case
    unfolding e by (simp add: read_pty_empty [OF emp])
qed

lemma writeThread_pass_one:
  assumes "\<not> terminateProcess s"
    and "distinct (map fst m)"
    and "(cid, chan) \<in> set m"
    and "take (nat cMaxDataSize) (pty_in s (pty chan)) = payload"
    and "payload \<noteq> []"
    and "\<forall>e \<in> set m. fst e \<noteq> cid \<longrightarrow> pty_in s (pty (snd e)) = []"
  shows "map fst (phys_calls (writeThread_pass m s)) =
     map fst (phys_calls s)
       @ [[cid], [nbytes_msb (of_nat (length payload))],
          [nbytes_lsb (of_nat (length payload))], payload]"
  using assms
proof (induction m arbitrary: s)
  case Nil
  then show ?case by simp
next
  case (Cons e m)
  obtain c ch where e: "e = (c, ch)" by (cases e)
  have len: "length payload \<le> nat cMaxDataSize"
    using Cons.prems(4) by auto
  have avail: "pty_in s (pty chan) \<noteq> []"
    using Cons.prems(4,5) by auto
  show ?case
  proof (cases "c = cid")
    case True
    have "cid \<notin> fst ` set m" using Cons.prems(2) e True by simp
    then have notin: "\<forall>e \<in> set m. fst e \<noteq> cid" by auto
    with Cons.prems(3) e True have ch: "ch = chan" by auto
    let ?s1 = "s\<lparr>pty_reads := pty_reads s @ [pty chan],
        pty_in := (pty_in s)(pty chan := drop (nat cMaxDataSize) (pty_in s (pty chan)))\<rparr>"
    let ?s2 = "writeThread_send cid (int (length payload)) payload ?s1"
    have rd: "read_pty (pty chan) (nat cMaxDataSize) s = (int (length payload), payload, ?s1)"
      using read_pty_data [OF avail, of "nat cMaxDataSize"] Cons.prems(4) by simp
    have pos: "\<not> int (length payload) < 1" using Cons.prems(5) by (cases payload) simp_all
    have step: "writeThread_pass (e # m) s = writeThread_pass m ?s2"
      unfolding e True ch using Cons.prems(1) pos
      by (simp add: rd writeThread_send_others)
    have "\<forall>e \<in> set m. pty_in ?s2 (pty (snd e)) = []"
    proof
      fix x assume x: "x \<in> set m"
      with notin have "fst x \<noteq> cid" by simp
      with Cons.prems(6) x have emp: "pty_in s (pty (snd x)) = []" by simp
      with avail have "pty (snd x) \<noteq> pty chan" by auto
      with emp show "pty_in ?s2 (pty (snd x)) = []"
        by (simp add: writeThread_send_others)
    qed
    then have "phys_calls (writeThread_pass m ?s2) = phys_calls ?s2"
      by (rule writeThread_pass_idle)
    then show ?thesis
      unfolding step using len
      by (simp add: writeThread_send_calls unat_length_u16)
  next
    case False
    with Cons.prems(6) e have emp: "pty_in s (pty ch) = []" by simp
    let ?s1 = "s\<lparr>pty_reads := pty_reads s @ [pty ch]\<rparr>"
    have step: "writeThread_pass (e # m) s = writeThread_pass m ?s1"
      unfolding e by (simp add: read_pty_empty [OF emp])
    have "map fst (phys_calls (writeThread_pass m ?s1)) =
       map fst (phys_calls ?s1)
         @ [[cid], [nbytes_msb (of_nat (length payload))],
            [nbytes_lsb (of_nat (length payload))], payload]"
      using Cons.prems e False by (intro Cons.IH) simp_all
    then show ?thesis unfolding step by simp
  qed
qed

text \<open>
  C8. In every pass in which \<^verbatim>\<open>writeThread\<close> reads n > 0 bytes from the descriptor
  of exactly one registered channel, with channel id C, and nothing from the
  others (their reads return 0 or -1), the calls \<^verbatim>\<open>write(phys_tty, ...)\<close> of the
  pass carry exactly one packet: the byte C, then the two bytes of n with the most
  significant first, then the n bytes read. Channel 10 with 5 bytes and channel 20
  with a read of 0 bytes give \<^verbatim>\<open>0A 00 05\<close> and the 5 bytes, and nothing else.
\<close>

theorem writeThread_one_packet:
  assumes "\<not> terminateProcess s"
    and "distinct (map fst (sVirtualPorts s))"
    and "(cid, chan) \<in> set (sVirtualPorts s)"
    and "take (nat cMaxDataSize) (pty_in s (pty chan)) = payload"
    and "payload \<noteq> []"
    and "\<forall>e \<in> set (sVirtualPorts s). fst e \<noteq> cid \<longrightarrow> pty_in s (pty (snd e)) = []"
  shows "map fst (phys_calls (writeThread 1 s)) =
      map fst (phys_calls s)
        @ [[cid], [nbytes_msb (of_nat (length payload))],
           [nbytes_lsb (of_nat (length payload))], payload]
    \<and> unat (nbytes_msb (of_nat (length payload))) = length payload div 256
    \<and> unat (nbytes_lsb (of_nat (length payload))) = length payload mod 256
    \<and> concat (drop (length (phys_calls s)) (map fst (phys_calls (writeThread 1 s))))
        = encode cid payload"
proof -
  have len: "length payload \<le> nat cMaxDataSize"
    using assms(4) by auto
  have one: "writeThread 1 s = writeThread_pass (sVirtualPorts s) s"
    using assms(1) by simp
  have calls: "map fst (phys_calls (writeThread 1 s)) =
      map fst (phys_calls s)
        @ [[cid], [nbytes_msb (of_nat (length payload))],
           [nbytes_lsb (of_nat (length payload))], payload]"
    unfolding one by (rule writeThread_pass_one [OF assms])
  have msb: "unat (nbytes_msb (of_nat (length payload))) = length payload div 256"
    using len by (simp add: unat_nbytes_msb unat_length_u16)
  have lsb: "unat (nbytes_lsb (of_nat (length payload))) = length payload mod 256"
    using len by (simp add: unat_nbytes_lsb unat_length_u16)
  have wire: "concat (drop (length (phys_calls s)) (map fst (phys_calls (writeThread 1 s))))
      = encode cid payload"
    unfolding calls using len by (simp add: encode_packet)
  from calls msb lsb wire show ?thesis by blast
qed

theorem writeThread_one_packet_witness:
  "\<not> terminateProcess ((started ports0)
      \<lparr>pty_in := (\<lambda>fd. if fd = 4 then [1, 2, 3, 4, 5] else []), pty_eof := (\<lambda>fd. fd = 5)\<rparr>)
   \<and> (10, chanA) \<in> set (sVirtualPorts ((started ports0)
      \<lparr>pty_in := (\<lambda>fd. if fd = 4 then [1, 2, 3, 4, 5] else []), pty_eof := (\<lambda>fd. fd = 5)\<rparr>))
   \<and> fst (read_pty (pty chanA) (nat cMaxDataSize) ((started ports0)
      \<lparr>pty_in := (\<lambda>fd. if fd = 4 then [1, 2, 3, 4, 5] else []), pty_eof := (\<lambda>fd. fd = 5)\<rparr>)) = 5
   \<and> fst (read_pty (pty chanB) (nat cMaxDataSize) ((started ports0)
      \<lparr>pty_in := (\<lambda>fd. if fd = 4 then [1, 2, 3, 4, 5] else []), pty_eof := (\<lambda>fd. fd = 5)\<rparr>)) = 0
   \<and> map fst (phys_calls (writeThread 1 ((started ports0)
      \<lparr>pty_in := (\<lambda>fd. if fd = 4 then [1, 2, 3, 4, 5] else []), pty_eof := (\<lambda>fd. fd = 5)\<rparr>)))
      = [[0x0A], [0x00], [0x05], [1, 2, 3, 4, 5]]"
proof -
  let ?s = "(started ports0)
      \<lparr>pty_in := (\<lambda>fd. if fd = 4 then [1, 2, 3, 4, 5] else []), pty_eof := (\<lambda>fd. fd = 5)\<rparr>"
  have a: "\<not> terminateProcess ?s" by (simp add: started_def)
  have b: "distinct (map fst (sVirtualPorts ?s))" by (simp add: started_def ports0_def)
  have c: "(10, chanA) \<in> set (sVirtualPorts ?s)" by (simp add: started_def ports0_def)
  have d: "take (nat cMaxDataSize) (pty_in ?s (pty chanA)) = [1, 2, 3, 4, 5]"
    by (simp add: chanA_def cMaxDataSize_def)
  have e: "[1, 2, 3, 4, 5 :: u8] \<noteq> []" by simp
  have f: "\<forall>e \<in> set (sVirtualPorts ?s). fst e \<noteq> 10 \<longrightarrow> pty_in ?s (pty (snd e)) = []"
    by (simp add: started_def ports0_def chanA_def chanB_def)
  have g: "phys_calls ?s = []" by (simp add: started_def)
  have h: "nbytes_msb (of_nat (length [1, 2, 3, 4, 5 :: u8])) = 0"
    "nbytes_lsb (of_nat (length [1, 2, 3, 4, 5 :: u8])) = 5"
    by (simp_all add: nbytes_msb_def nbytes_lsb_def)
  have ra: "fst (read_pty (pty chanA) (nat cMaxDataSize) ?s) = 5"
    by (simp add: read_pty_def chanA_def cMaxDataSize_def Let_def)
  have rb: "fst (read_pty (pty chanB) (nat cMaxDataSize) ?s) = 0"
    by (simp add: read_pty_def chanB_def)
  from writeThread_one_packet [OF a b c d e f]
  have "map fst (phys_calls (writeThread 1 ?s)) = [[0x0A], [0x00], [0x05], [1, 2, 3, 4, 5]]"
    unfolding g h by simp
  with a c ra rb show ?thesis by blast
qed

text \<open>
  C9. The claim: whenever a write of a packet to the serial port returns less than
  was asked for, \<^verbatim>\<open>writeThread\<close> prints an error, does not retry, and goes on. The
  packet is written with four calls and only the result of the last one is looked
  at (lines 472-479). With 5 bytes waiting on channel 10, when the write of the
  channel id fails with -1 and the three others are complete, nothing is printed:
  the packet goes out without its first byte and without a message.
\<close>

theorem header_write_failure_not_reported:
  "phys_calls (writeThread 1 ((started ports0)
      \<lparr>pty_in := (\<lambda>fd. if fd = 4 then [1, 2, 3, 4, 5] else []),
       phys_results := [- 1, 1, 1, 5]\<rparr>))
     = [([0x0A], - 1), ([0x00], 1), ([0x05], 1), ([1, 2, 3, 4, 5], 5)]
   \<and> cerr (writeThread 1 ((started ports0)
      \<lparr>pty_in := (\<lambda>fd. if fd = 4 then [1, 2, 3, 4, 5] else []),
       phys_results := [- 1, 1, 1, 5]\<rparr>)) = []"
  by code_simp

subsection \<open>writeThread: the packets of a pass\<close>

lemma packet_calls_append:
  "packet_calls xs \<Longrightarrow> packet_calls (xs @ ys) = packet_calls ys"
  by (induction xs rule: packet_calls.induct) simp_all

lemma packet_calls_send:
  assumes "1 \<le> length buf" and "length buf \<le> nat cMaxDataSize"
  shows "packet_calls [[cid], [nbytes_msb (of_nat (length buf))],
      [nbytes_lsb (of_nat (length buf))], buf]"
  using assms by (simp add: nbytes_roundtrip unat_length_u16)

lemma writeThread_send_packet:
  "length buf \<le> nat cMaxDataSize \<Longrightarrow>
   map fst (phys_calls (writeThread_send cid (int (length buf)) buf s)) =
     map fst (phys_calls s)
       @ [[cid], [nbytes_msb (of_nat (length buf))], [nbytes_lsb (of_nat (length buf))], buf]"
  by (simp add: writeThread_send_calls unat_length_u16)

lemma writeThread_pass_data:
  "read_pty (pty chan) (nat cMaxDataSize) s = (tmp, buf, s1) \<Longrightarrow> \<not> tmp < 1 \<Longrightarrow>
   writeThread_pass ((cid, chan) # m) s =
     (if terminateProcess (writeThread_send cid tmp buf s1) then writeThread_send cid tmp buf s1
      else writeThread_pass m (writeThread_send cid tmp buf s1))"
  by (simp add: Let_def)

lemma writeThread_pass_packets:
  "\<exists>calls. map fst (phys_calls (writeThread_pass m s)) = map fst (phys_calls s) @ calls
      \<and> packet_calls calls"
proof (induction m arbitrary: s)
  case Nil
  have "map fst (phys_calls (writeThread_pass [] s)) = map fst (phys_calls s) @ [] \<and> packet_calls []"
    by simp
  then show ?case by blast
next
  case (Cons e m)
  obtain cid chan where e: "e = (cid, chan)" by (cases e)
  show ?case
  proof (cases "pty_in s (pty chan) = []")
    case True
    let ?s1 = "s\<lparr>pty_reads := pty_reads s @ [pty chan]\<rparr>"
    have step: "writeThread_pass (e # m) s = writeThread_pass m ?s1"
      unfolding e by (simp add: read_pty_empty [OF True])
    from Cons.IH [of ?s1] show ?thesis unfolding step by simp
  next
    case False
    let ?buf = "take (nat cMaxDataSize) (pty_in s (pty chan))"
    let ?s1 = "s\<lparr>pty_reads := pty_reads s @ [pty chan],
        pty_in := (pty_in s)(pty chan := drop (nat cMaxDataSize) (pty_in s (pty chan)))\<rparr>"
    let ?s2 = "writeThread_send cid (int (length ?buf)) ?buf ?s1"
    let ?p = "[[cid], [nbytes_msb (of_nat (length ?buf))], [nbytes_lsb (of_nat (length ?buf))], ?buf]"
    have len: "length ?buf \<le> nat cMaxDataSize" by simp
    have pos: "1 \<le> length ?buf"
      using False by (cases "pty_in s (pty chan)") (simp_all add: cMaxDataSize_def)
    have sent: "map fst (phys_calls ?s2) = map fst (phys_calls s) @ ?p"
      using writeThread_send_packet [OF len, of cid ?s1] by simp
    have ok: "packet_calls ?p" by (rule packet_calls_send [OF pos len])
    have rd: "read_pty (pty chan) (nat cMaxDataSize) s = (int (length ?buf), ?buf, ?s1)"
      by (rule read_pty_data [OF False])
    have npos: "\<not> int (length ?buf) < 1" using pos by linarith
    note pass = writeThread_pass_data [OF rd npos, of cid m, folded e]
    show ?thesis
    proof (cases "terminateProcess ?s2")
      case True
      have "writeThread_pass (e # m) s = ?s2"
        using True by (simp only: pass if_True)
      with sent ok show ?thesis by auto
    next
      case running: False
      have step: "writeThread_pass (e # m) s = writeThread_pass m ?s2"
        using running by (simp only: pass if_False)
      from Cons.IH [of ?s2] obtain calls where
        c: "map fst (phys_calls (writeThread_pass m ?s2)) = map fst (phys_calls ?s2) @ calls"
        and p: "packet_calls calls" by blast
      have "map fst (phys_calls (writeThread_pass (e # m) s)) = map fst (phys_calls s) @ (?p @ calls)"
        unfolding step c sent by simp
      moreover have "packet_calls (?p @ calls)"
        by (simp only: packet_calls_append [OF ok] p)
      ultimately show ?thesis by blast
    qed
  qed
qed

text \<open>
  C10. Every packet \<^verbatim>\<open>writeThread\<close> sends has a length n with 1 \<le> n \<le> 1000
  (\<^verbatim>\<open>cMaxDataSize\<close>) in its header: the calls \<^verbatim>\<open>write(phys_tty, ...)\<close> of a pass, from
  any state and over any channels, are a sequence of packets with such a length
  and that many data bytes. A packet of length 0 is never sent: when the read of a
  channel returns less than 1, be it 0 or -1, there is no call at all for that
  channel.
\<close>

theorem writeThread_packet_lengths:
  "packet_calls (drop (length (phys_calls s)) (map fst (phys_calls (writeThread_pass m s))))
   \<and> (fst (read_pty (pty chan) (nat cMaxDataSize) s) < 1 \<longrightarrow>
        phys_calls (writeThread_pass [(cid, chan)] s) = phys_calls s)"
proof -
  obtain calls where
    c: "map fst (phys_calls (writeThread_pass m s)) = map fst (phys_calls s) @ calls"
    and p: "packet_calls calls"
    using writeThread_pass_packets [of m s] by blast
  have "drop (length (phys_calls s)) (map fst (phys_calls (writeThread_pass m s))) = calls"
    unfolding c by simp
  moreover have "phys_calls (snd (snd (read_pty (pty chan) (nat cMaxDataSize) s))) = phys_calls s"
    by (simp add: read_pty_def Let_def)
  ultimately show ?thesis
    using p by (simp add: split_beta)
qed

theorem writeThread_packet_lengths_witness:
  "packet_calls (map fst (phys_calls (writeThread_pass ports0 ((started ports0)
      \<lparr>pty_in := (\<lambda>fd. if fd = 4 then [1, 2, 3, 4, 5] else []), pty_eof := (\<lambda>fd. fd = 5)\<rparr>))))
   \<and> fst (read_pty (pty chanB) (nat cMaxDataSize) ((started ports0)
      \<lparr>pty_in := (\<lambda>fd. if fd = 4 then [1, 2, 3, 4, 5] else []), pty_eof := (\<lambda>fd. fd = 5)\<rparr>)) = 0
   \<and> phys_calls (writeThread_pass [(20, chanB)] ((started ports0)
      \<lparr>pty_in := (\<lambda>fd. if fd = 4 then [1, 2, 3, 4, 5] else []), pty_eof := (\<lambda>fd. fd = 5)\<rparr>)) = []"
proof -
  let ?s = "(started ports0)
      \<lparr>pty_in := (\<lambda>fd. if fd = 4 then [1, 2, 3, 4, 5] else []), pty_eof := (\<lambda>fd. fd = 5)\<rparr>"
  have a: "fst (read_pty (pty chanB) (nat cMaxDataSize) ?s) = 0"
    by (simp add: read_pty_def chanB_def)
  have b: "phys_calls ?s = []" by (simp add: started_def)
  from writeThread_packet_lengths [of ?s ports0 chanB 20] a b show ?thesis by simp
qed

subsection \<open>The channels that main registers\<close>

lemma main_options_sorted:
  "sorted_wrt (<) (map fst m0) \<Longrightarrow> main_options opts m0 = Inr m \<Longrightarrow>
   sorted_wrt (<) (map fst m)"
proof (induction opts arbitrary: m0)
  case Nil
  then show ?case by simp
next
  case (Cons opt opts)
  show ?case
  proof (cases opt)
    case (Opt_c optarg)
    let ?n = "atoi optarg"
    let ?chan = "\<lparr>channelId = of_int ?n, pty = - 1, linkPath = link_of optarg, ptyName = []\<rparr>"
    from Cons.prems(2) Opt_c have ok: "\<not> (?n > cMaxChannelId \<or> ?n < 0)"
      by (auto simp: Let_def split: if_splits)
    with Cons.prems(2) Opt_c
    have "main_options opts (emplace (of_int ?n) ?chan m0) = Inr m"
      by (simp add: Let_def)
    moreover have "sorted_wrt (<) (map fst (emplace (of_int ?n) ?chan m0))"
      by (rule sorted_emplace [OF Cons.prems(1)])
    ultimately show ?thesis by (rule Cons.IH [rotated])
  next
    case Opt_h
    with Cons.prems(2) show ?thesis by simp
  next
    case Opt_other
    with Cons.prems(2) show ?thesis by simp
  qed
qed

lemma main_options_append:
  "main_options (xs @ ys) m0 =
     (case main_options xs m0 of Inl status \<Rightarrow> Inl status | Inr m \<Rightarrow> main_options ys m)"
proof (induction xs arbitrary: m0)
  case Nil
  then show ?case by simp
next
  case (Cons opt xs)
  then show ?case by (cases opt) (simp_all add: Let_def)
qed

lemma main_ports_keys:
  "main_ports sys m = Some m' \<Longrightarrow> map fst m' = map fst m"
proof (induction m arbitrary: m')
  case Nil
  then show ?case by simp
next
  case (Cons e m)
  obtain cid chan where e: "e = (cid, chan)" by (cases e)
  from Cons.prems obtain m1 where "main_ports sys m = Some m1" and "m' = (cid, snd (startPty sys chan)) # m1"
    unfolding e by (auto simp: split_beta split: if_splits)
  with Cons.IH [of m1] e show ?case by simp
qed

lemma main_sorted:
  assumes "main opts port sys = Inr m"
  shows "sorted_wrt (<) (map fst m)"
proof -
  from assms obtain m0 where o: "main_options opts [] = Inr m0" and p: "main_ports sys m0 = Some m"
    by (auto simp: main_def split: sum.splits if_splits option.splits)
  have "sorted_wrt (<) (map fst m0)"
    using main_options_sorted [OF _ o] by simp
  with main_ports_keys [OF p] show ?thesis by simp
qed

text \<open>The usual command line gives the channels used in the examples.\<close>

lemma main_usual:
  "main [Opt_c ''10:/tmp/ptyA'', Opt_c ''20:/tmp/ptyB''] (Some ''/dev/ttyp0'') sys0
     = Inr ports0"
  by code_simp

lemma writeThread_reads:
  "\<not> terminateProcess s \<Longrightarrow>
   pty_reads (writeThread k s) =
     pty_reads s @ concat (replicate k (map (\<lambda>e. pty (snd e)) (sVirtualPorts s)))
   \<and> sVirtualPorts (writeThread k s) = sVirtualPorts s"
proof (induction k arbitrary: s)
  case 0
  then show ?case by simp
next
  case (Suc k)
  let ?s = "writeThread_pass (sVirtualPorts s) s"
  have run: "\<not> terminateProcess ?s" using Suc.prems by (simp add: writeThread_pass_flag)
  from Suc.IH [OF run] Suc.prems show ?case
    by (simp add: writeThread_pass_ports writeThread_pass_reads)
qed

text \<open>
  C6, as stated: a pass of \<^verbatim>\<open>writeThread\<close> visits the channels in the order in which
  they were registered. With \<^verbatim>\<open>-c20:/tmp/ptyB -c10:/tmp/ptyA\<close>, channel 20 is
  registered first, and the pass reads channel 10 (descriptor 4) before channel
  20 (descriptor 5).
\<close>

theorem writeThread_order_not_insertion:
  "main [Opt_c ''20:/tmp/ptyB'', Opt_c ''10:/tmp/ptyA''] (Some ''/dev/ttyp0'') sys0
     = Inr ports0
   \<and> map fst ports0 = [10, 20]
   \<and> map (\<lambda>e. pty (snd e)) ports0 = [4, 5]
   \<and> pty_reads (writeThread 1 (started ports0)) = [4, 5]
   \<and> pty_reads (writeThread 1 (started ports0)) \<noteq> [5, 4]"
  by code_simp

text \<open>
  C6, amended. A pass of \<^verbatim>\<open>writeThread\<close> visits the channels in ascending order of
  channel id, the order of the \<^verbatim>\<open>std::map\<close>, whatever the order in which they were
  registered, and this order is the same on every pass of \<^verbatim>\<open>writeThread\<close>.
\<close>

theorem writeThread_order:
  assumes "main opts port sys = Inr (sVirtualPorts s)"
    and "\<not> terminateProcess s"
  shows "sorted_wrt (<) (map fst (sVirtualPorts s))
    \<and> pty_reads (writeThread k s) =
        pty_reads s @ concat (replicate k (map (\<lambda>e. pty (snd e)) (sVirtualPorts s)))"
  using main_sorted [OF assms(1)] writeThread_reads [OF assms(2), of k] by simp

theorem writeThread_order_witness:
  "main [Opt_c ''20:/tmp/ptyB'', Opt_c ''10:/tmp/ptyA''] (Some ''/dev/ttyp0'') sys0
     = Inr (sVirtualPorts (started ports0))
   \<and> \<not> terminateProcess (started ports0)
   \<and> sorted_wrt (<) (map fst (sVirtualPorts (started ports0)))
   \<and> pty_reads (writeThread 2 (started ports0)) = [4, 5, 4, 5]"
proof -
  have a: "main [Opt_c ''20:/tmp/ptyB'', Opt_c ''10:/tmp/ptyA''] (Some ''/dev/ttyp0'') sys0
     = Inr (sVirtualPorts (started ports0))"
    by code_simp
  have b: "\<not> terminateProcess (started ports0)"
    by (simp add: started_def)
  have c: "pty_reads (started ports0) = []"
    by (simp add: started_def)
  have d: "concat (replicate 2 (map (\<lambda>e. pty (snd e)) (sVirtualPorts (started ports0)))) = [4, 5, 4, 5]"
    by (simp add: started_def ports0_def chanA_def chanB_def numeral_2_eq_2)
  from writeThread_order [OF a b, of 2] a b show ?thesis
    unfolding c d by simp
qed

text \<open>
  C7, as stated: registering a channel id that is already registered is a fatal
  error, and the process exits with a failure status before the threads start.
  With \<^verbatim>\<open>-c10:/tmp/ptyA -c10:/tmp/ptyB\<close> the process does not exit: the threads start
  with channel 10 alone, linked at \<^verbatim>\<open>/tmp/ptyA\<close>.
\<close>

theorem duplicate_channel_starts:
  "main [Opt_c ''10:/tmp/ptyA'', Opt_c ''10:/tmp/ptyB''] (Some ''/dev/ttyp0'') sys0
     = Inr [(10, chanA)]
   \<and> main [Opt_c ''10:/tmp/ptyA'', Opt_c ''10:/tmp/ptyB''] (Some ''/dev/ttyp0'') sys0
     \<noteq> Inl EXIT_FAILURE"
  by code_simp

text \<open>
  C7, amended. Registering a channel id that is already registered is not an
  error: \<^verbatim>\<open>emplace\<close> leaves the map as it is, the first entry is kept and the new one
  dropped, and \<^verbatim>\<open>main\<close> goes on as if the option had not been given.
\<close>

theorem duplicate_channel_ignored:
  assumes "main_options before [] = Inr m"
    and "map_of m (of_int (atoi optarg)) = Some chan"
    and "0 \<le> atoi optarg" and "atoi optarg \<le> cMaxChannelId"
  shows "main_options (before @ [Opt_c optarg]) [] = Inr m
    \<and> main (before @ Opt_c optarg # after) port sys = main (before @ after) port sys"
proof -
  have s: "sorted_wrt (<) (map fst m)"
    using main_options_sorted [OF _ assms(1)] by simp
  have one: "main_options (Opt_c optarg # opts) m = main_options opts m" for opts
    using assms(3,4) by (simp add: Let_def emplace_present [OF s assms(2)])
  have "main_options (before @ Opt_c optarg # opts) [] = main_options (before @ opts) []" for opts
    by (simp add: main_options_append assms(1) one del: main_options.simps)
  from this [of after] this [of "[]"] assms(1) show ?thesis
    by (simp add: main_def)
qed

theorem duplicate_channel_ignored_witness:
  "main_options [Opt_c ''10:/tmp/ptyA''] []
     = Inr [(10, \<lparr>channelId = 10, pty = - 1, linkPath = ''/tmp/ptyA'', ptyName = []\<rparr>)]
   \<and> atoi ''10:/tmp/ptyB'' = 10
   \<and> main_options ([Opt_c ''10:/tmp/ptyA''] @ [Opt_c ''10:/tmp/ptyB'']) []
     = Inr [(10, \<lparr>channelId = 10, pty = - 1, linkPath = ''/tmp/ptyA'', ptyName = []\<rparr>)]
   \<and> main ([Opt_c ''10:/tmp/ptyA''] @ Opt_c ''10:/tmp/ptyB'' # [Opt_c ''20:/tmp/ptyB''])
        (Some ''/dev/ttyp0'') sys0
     = main ([Opt_c ''10:/tmp/ptyA''] @ [Opt_c ''20:/tmp/ptyB'']) (Some ''/dev/ttyp0'') sys0"
proof -
  let ?c = "\<lparr>channelId = 10, pty = - 1, linkPath = ''/tmp/ptyA'', ptyName = []\<rparr>"
  have a: "main_options [Opt_c ''10:/tmp/ptyA''] [] = Inr [(10, ?c)]"
    by code_simp
  have n: "atoi ''10:/tmp/ptyB'' = 10"
    by code_simp
  have b: "map_of [(10 :: u8, ?c)] (of_int (atoi ''10:/tmp/ptyB'')) = Some ?c"
    unfolding n by simp
  have c: "0 \<le> atoi ''10:/tmp/ptyB''" "atoi ''10:/tmp/ptyB'' \<le> cMaxChannelId"
    unfolding n by (simp_all add: cMaxChannelId_def)
  from duplicate_channel_ignored [OF a b c, of "[Opt_c ''20:/tmp/ptyB'']" "Some ''/dev/ttyp0''" sys0]
    a n show ?thesis by blast
qed

end
